theory Spec2Isabelle
  imports Main "HOL-Library.Word" "HOL-Library.Sublist"
begin

unbundle bit_operations_syntax

section \<open>Package keys of chrome-ssh-agent (go/keys/manager.go)\<close>

text \<open>
  Go strings are byte sequences and are modelled as \<open>string\<close> (a list of 8-bit
  characters); a \<open>[]byte\<close> is a list of 8-bit words. A Go \<open>error\<close> is modelled by
  its message, so \<open>fmt.Errorf("ctx: %v", err)\<close> is the context followed by the message of
  \<open>err\<close>, and \<open>fmt.Sprintf("%s%s", a, b)\<close> is \<open>a @ b\<close>.
\<close>

type_synonym byte = "8 word"
type_synonym error = string

subsection \<open>Package strings\<close>

definition HasPrefix :: "string \<Rightarrow> string \<Rightarrow> bool" where
  "HasPrefix s pre = (length pre \<le> length s \<and> take (length pre) s = pre)"

definition TrimPrefix :: "string \<Rightarrow> string \<Rightarrow> string" where
  "TrimPrefix s pre = (if HasPrefix s pre then drop (length pre) s else s)"

fun Contains :: "string \<Rightarrow> string \<Rightarrow> bool" where
  "Contains [] substr = (substr = [])"
| "Contains (c # s) substr = (HasPrefix (c # s) substr \<or> Contains s substr)"

definition bytes_of :: "string \<Rightarrow> byte list" where
  "bytes_of s = map of_char s"

subsection \<open>Identifiers and the key types\<close>

type_synonym ID = string

definition InvalidID :: ID where
  "InvalidID = ''''"

record ConfiguredKey =
  ID :: ID
  Name :: string
  Encrypted :: bool

record LoadedKey =
  Type :: string
  blob :: string
  Comment :: string

record storedKey =
  ID :: ID
  Name :: string
  PEMPrivateKey :: string

definition keyPrefix :: string where
  "keyPrefix = ''key.''"

definition commentPrefix :: string where
  "commentPrefix = ''chrome-ssh-agent:''"

text \<open>\<open>func (k *LoadedKey) ID() ID\<close>\<close>

definition LoadedKey_ID :: "LoadedKey \<Rightarrow> ID" where
  "LoadedKey_ID k =
     (if \<not> HasPrefix (LoadedKey.Comment k) commentPrefix then InvalidID
      else TrimPrefix (LoadedKey.Comment k) commentPrefix)"

text \<open>The comment that \<open>Load\<close> attaches to a key: \<open>fmt.Sprintf("%s%s", commentPrefix, id)\<close>.\<close>

definition encodeComment :: "ID \<Rightarrow> string" where
  "encodeComment i = commentPrefix @ i"

subsection \<open>Package encoding/base64: \<open>StdEncoding\<close>\<close>

text \<open>
  \<open>base64.StdEncoding\<close> is the standard alphabet of RFC 4648 with \<open>=\<close> padding.
  \<open>EncodeToString\<close> follows the library's \<open>Encode\<close>: whole groups of three bytes, then
  a remainder of one or two bytes, padded. \<open>DecodeString\<close> follows its decoder: carriage
  returns and line feeds are ignored, every group has four characters, padding may only
  end the input, and the non-strict decoder does not look at the unused low bits of a
  padded group. The offset carried by the library's \<open>CorruptInputError\<close> is left out.
\<close>

definition encodeStd :: string where
  "encodeStd = ''ABCDEFGHIJKLMNOPQRSTUVWXYZabcdefghijklmnopqrstuvwxyz0123456789+/''"

definition padChar :: char where
  "padChar = CHR ''=''"

definition encode :: "32 word \<Rightarrow> char" where
  "encode v = encodeStd ! unat v"

definition decodeMap :: "char \<Rightarrow> byte" where
  "decodeMap c = (case map_of (zip encodeStd (map of_nat [0..<64])) c of
                    None \<Rightarrow> 0xFF | Some v \<Rightarrow> v)"

fun EncodeToString :: "byte list \<Rightarrow> string" where
  "EncodeToString (a # b # c # src) =
     (let val = push_bit 16 (ucast a) OR push_bit 8 (ucast b) OR ucast c
      in encode (drop_bit 18 val AND 0x3F) # encode (drop_bit 12 val AND 0x3F) #
         encode (drop_bit 6 val AND 0x3F) # encode (val AND 0x3F) # EncodeToString src)"
| "EncodeToString [a, b] =
     (let val = push_bit 16 (ucast a) OR push_bit 8 (ucast b)
      in [encode (drop_bit 18 val AND 0x3F), encode (drop_bit 12 val AND 0x3F),
          encode (drop_bit 6 val AND 0x3F), padChar])"
| "EncodeToString [a] =
     (let val = push_bit 16 (ucast a)
      in [encode (drop_bit 18 val AND 0x3F), encode (drop_bit 12 val AND 0x3F),
          padChar, padChar])"
| "EncodeToString [] = []"

datatype CorruptInputError = CorruptInputError

definition quantum :: "byte \<Rightarrow> byte \<Rightarrow> byte \<Rightarrow> byte \<Rightarrow> 32 word" where
  "quantum d0 d1 d2 d3 =
     push_bit 18 (ucast d0) OR push_bit 12 (ucast d1) OR push_bit 6 (ucast d2) OR ucast d3"

fun decodeQuanta :: "string \<Rightarrow> CorruptInputError + byte list" where
  "decodeQuanta [] = Inr []"
| "decodeQuanta (c0 # c1 # c2 # c3 # src) =
     (if decodeMap c0 = 0xFF \<or> decodeMap c1 = 0xFF then Inl CorruptInputError
      else if decodeMap c2 = 0xFF then
        (if c2 = padChar \<and> c3 = padChar \<and> src = []
         then Inr [ucast (drop_bit 16 (quantum (decodeMap c0) (decodeMap c1) 0 0))]
         else Inl CorruptInputError)
      else if decodeMap c3 = 0xFF then
        (if c3 = padChar \<and> src = []
         then (let val = quantum (decodeMap c0) (decodeMap c1) (decodeMap c2) 0
               in Inr [ucast (drop_bit 16 val), ucast (drop_bit 8 val)])
         else Inl CorruptInputError)
      else
        (case decodeQuanta src of
           Inl e \<Rightarrow> Inl e
         | Inr bs \<Rightarrow>
             (let val = quantum (decodeMap c0) (decodeMap c1) (decodeMap c2) (decodeMap c3)
              in Inr (ucast (drop_bit 16 val) # ucast (drop_bit 8 val) # ucast val # bs))))"
| "decodeQuanta src = Inl CorruptInputError"

definition DecodeString :: "string \<Rightarrow> CorruptInputError + byte list" where
  "DecodeString s = decodeQuanta (filter (\<lambda>c. c \<noteq> CHR 0x0A \<and> c \<noteq> CHR 0x0D) s)"

text \<open>
  The 24-bit group that \<open>Encode\<close> builds from three source bytes
  (\<open>uint(src[si+0])<<16 | uint(src[si+1])<<8 | uint(src[si+2])\<close>); used to state the
  lemmas about one group.
\<close>

definition val3 :: "byte \<Rightarrow> byte \<Rightarrow> byte \<Rightarrow> 32 word" where
  "val3 a b c = push_bit 16 (ucast a) OR push_bit 8 (ucast b) OR ucast c"

subsection \<open>The blob of a loaded key\<close>

text \<open>A line written by \<open>log.Printf\<close>: the format string and the error it formats.\<close>

type_synonym log_entry = "string \<times> CorruptInputError"

text \<open>\<open>func (k *LoadedKey) SetBlob(b []byte)\<close>\<close>

definition LoadedKey_SetBlob :: "byte list \<Rightarrow> LoadedKey \<Rightarrow> LoadedKey" where
  "LoadedKey_SetBlob b k = k\<lparr>blob := EncodeToString b\<rparr>"

text \<open>
  \<open>func (k *LoadedKey) Blob() []byte\<close>. The result is the byte slice returned together
  with the lines written to the log; the \<open>nil\<close> slice returned on a decode error is the
  empty list.
\<close>

definition LoadedKey_Blob :: "LoadedKey \<Rightarrow> byte list \<times> log_entry list" where
  "LoadedKey_Blob k =
     (case DecodeString (blob k) of
        Inl err \<Rightarrow> ([], [(''failed to decode key blob: %v'', err)])
      | Inr b \<Rightarrow> (b, []))"

subsection \<open>External packages\<close>

text \<open>
  \<open>pem.Block\<close> of encoding/pem. \<open>Headers\<close> is a Go map; reading a key that is
  absent gives the empty string.
\<close>

record pem_Block =
  Type :: string
  Headers :: "string \<rightharpoonup> string"
  Bytes :: "byte list"

definition header :: "pem_Block \<Rightarrow> string \<Rightarrow> string" where
  "header block k = (case Headers block k of None \<Rightarrow> [] | Some v \<Rightarrow> v)"

text \<open>
  The functions of other packages that the manager calls, taken as parameters:
  \<open>pem.Decode\<close> (its second result, the rest of the input, is discarded by the caller and
  left out; \<open>None\<close> is the \<open>nil\<close> block), \<open>ssh.ParseRawPrivateKey\<close>,
  \<open>ssh.ParseRawPrivateKeyWithPassphrase\<close>, and \<open>rand.Int\<close> on \<open>rand.Reader\<close>, as a
  function of its bound. \<open>'p\<close> is the type of parsed private keys.
\<close>

record 'p packages =
  pem_Decode :: "byte list \<Rightarrow> pem_Block option"
  ssh_ParseRawPrivateKey :: "byte list \<Rightarrow> error + 'p"
  ssh_ParseRawPrivateKeyWithPassphrase :: "byte list \<Rightarrow> byte list \<Rightarrow> error + 'p"
  rand_Int :: "int \<Rightarrow> error + int"

definition math_MaxInt64 :: int where
  "math_MaxInt64 = 9223372036854775807"

text \<open>\<open>(*big.Int).String\<close>: the decimal representation.\<close>

definition digits :: string where
  "digits = ''0123456789''"

fun decimal :: "nat \<Rightarrow> string" where
  "decimal n =
     (if n < 10 then [digits ! n] else decimal (n div 10) @ [digits ! (n mod 10)])"

declare decimal.simps [simp del]

definition big_String :: "int \<Rightarrow> string" where
  "big_String i = (if i < 0 then CHR ''-'' # decimal (nat (- i)) else decimal (nat i))"

text \<open>The number that a string of decimal digits denotes.\<close>

definition decimal_value :: "string \<Rightarrow> nat" where
  "decimal_value s = foldl (\<lambda>acc c. 10 * acc + (of_char c - 48)) 0 s"

text \<open>
  \<open>agent.Key\<close>, \<open>agent.AddedKey\<close> and the methods of \<open>agent.Agent\<close> that the manager
  uses. The fields of \<open>AddedKey\<close> that \<open>Load\<close> leaves at their zero values are left out.
\<close>

record agent_Key =
  Format :: string
  Blob :: "byte list"
  Comment :: string

definition Key_Type :: "agent_Key \<Rightarrow> string" where
  "Key_Type k = Format k"

definition Key_Marshal :: "agent_Key \<Rightarrow> byte list" where
  "Key_Marshal k = Blob k"

record 'p AddedKey =
  PrivateKey :: 'p
  Comment :: string

record ('a, 'p) Agent =
  agent_List :: "'a \<Rightarrow> (error + agent_Key list) \<times> 'a"
  agent_Add :: "'p AddedKey \<Rightarrow> 'a \<Rightarrow> error option \<times> 'a"
  agent_Remove :: "agent_Key \<Rightarrow> 'a \<Rightarrow> error option \<times> 'a"

subsection \<open>Persistent storage\<close>

text \<open>
  A value held in storage (\<open>interface{}\<close>): either a JavaScript object, which
  \<open>readKeys\<close> receives as a \<open>map[string]interface{}\<close> and which is represented by its
  \<open>id\<close>, \<open>name\<close> and \<open>pemPrivateKey\<close> properties, or any other value. The data passed to
  \<open>Set\<close> and returned by \<open>Get\<close> is a Go map, given as the list of its entries in the
  order in which \<open>range\<close> visits them.
\<close>

datatype stored_value = MapValue storedKey | OtherValue

type_synonym storage_data = "(string \<times> stored_value) list"

text \<open>
  The interface \<open>PersistentStore\<close>, over the state \<open>'s\<close> of an implementation. Each
  method returns what it passes to its callback, and the new state.
\<close>

record 's PersistentStore =
  storage_Set :: "storage_data \<Rightarrow> 's \<Rightarrow> error option \<times> 's"
  storage_Get :: "'s \<Rightarrow> (error + storage_data) \<times> 's"
  storage_Delete :: "string list \<Rightarrow> 's \<Rightarrow> error option \<times> 's"

subsection \<open>The manager\<close>

record ('s, 'a, 'p) manager =
  agent :: "('a, 'p) Agent"
  storage :: "'s PersistentStore"

text \<open>
  The state the manager's operations act on: the states of the two adapters, the
  sequence of calls made to them so far, and the log.
\<close>

datatype 'p call =
    Storage_Set storage_data
  | Storage_Get
  | Storage_Delete "string list"
  | Agent_List
  | Agent_Add "'p AddedKey"
  | Agent_Remove agent_Key

record ('s, 'a, 'p) world =
  storage_state :: 's
  agent_state :: 'a
  calls :: "'p call list"
  log :: "log_entry list"

text \<open>An operation either panics or invokes its callback, once, with a result.\<close>

datatype 'r outcome = Panic | Callback 'r

definition call_Set ::
  "('s, 'a, 'p) manager \<Rightarrow> storage_data \<Rightarrow> ('s, 'a, 'p) world \<Rightarrow>
   error option \<times> ('s, 'a, 'p) world" where
  "call_Set m data w =
     (case storage_Set (storage m) data (storage_state w) of
        (r, s) \<Rightarrow> (r, w\<lparr>storage_state := s, calls := calls w @ [Storage_Set data]\<rparr>))"

definition call_Get ::
  "('s, 'a, 'p) manager \<Rightarrow> ('s, 'a, 'p) world \<Rightarrow>
   (error + storage_data) \<times> ('s, 'a, 'p) world" where
  "call_Get m w =
     (case storage_Get (storage m) (storage_state w) of
        (r, s) \<Rightarrow> (r, w\<lparr>storage_state := s, calls := calls w @ [Storage_Get]\<rparr>))"

definition call_Delete ::
  "('s, 'a, 'p) manager \<Rightarrow> string list \<Rightarrow> ('s, 'a, 'p) world \<Rightarrow>
   error option \<times> ('s, 'a, 'p) world" where
  "call_Delete m ks w =
     (case storage_Delete (storage m) ks (storage_state w) of
        (r, s) \<Rightarrow> (r, w\<lparr>storage_state := s, calls := calls w @ [Storage_Delete ks]\<rparr>))"

definition call_List ::
  "('s, 'a, 'p) manager \<Rightarrow> ('s, 'a, 'p) world \<Rightarrow>
   (error + agent_Key list) \<times> ('s, 'a, 'p) world" where
  "call_List m w =
     (case agent_List (agent m) (agent_state w) of
        (r, a) \<Rightarrow> (r, w\<lparr>agent_state := a, calls := calls w @ [Agent_List]\<rparr>))"

definition call_Add ::
  "('s, 'a, 'p) manager \<Rightarrow> 'p AddedKey \<Rightarrow> ('s, 'a, 'p) world \<Rightarrow>
   error option \<times> ('s, 'a, 'p) world" where
  "call_Add m k w =
     (case agent_Add (agent m) k (agent_state w) of
        (r, a) \<Rightarrow> (r, w\<lparr>agent_state := a, calls := calls w @ [Agent_Add k]\<rparr>))"

definition call_Remove ::
  "('s, 'a, 'p) manager \<Rightarrow> agent_Key \<Rightarrow> ('s, 'a, 'p) world \<Rightarrow>
   error option \<times> ('s, 'a, 'p) world" where
  "call_Remove m k w =
     (case agent_Remove (agent m) k (agent_state w) of
        (r, a) \<Rightarrow> (r, w\<lparr>agent_state := a, calls := calls w @ [Agent_Remove k]\<rparr>))"

text \<open>\<open>func (s *storedKey) Encrypted() bool\<close>\<close>

definition storedKey_Encrypted :: "'p packages \<Rightarrow> storedKey \<Rightarrow> bool" where
  "storedKey_Encrypted P s =
     (case pem_Decode P (bytes_of (PEMPrivateKey s)) of
        None \<Rightarrow> False
      | Some block \<Rightarrow> Contains (header block ''Proc-Type'') ''ENCRYPTED'')"

text \<open>\<open>newStoredKey\<close> copies the properties of the map into a fresh object.\<close>

definition newStoredKey :: "storedKey \<Rightarrow> storedKey" where
  "newStoredKey m =
     \<lparr>ID = storedKey.ID m, Name = storedKey.Name m, PEMPrivateKey = PEMPrivateKey m\<rparr>"

text \<open>
  The loop of \<open>readKeys\<close> over the data; the type assertion
  \<open>v.(map[string]interface{})\<close> panics on a value that is not a map (\<open>None\<close>).
\<close>

fun readKeys_loop :: "storage_data \<Rightarrow> storedKey list \<Rightarrow> storedKey list option" where
  "readKeys_loop [] keys = Some keys"
| "readKeys_loop ((k, v) # data) keys =
     (if \<not> HasPrefix k keyPrefix then readKeys_loop data keys
      else (case v of
              MapValue m \<Rightarrow> readKeys_loop data (keys @ [newStoredKey m])
            | OtherValue \<Rightarrow> None))"

definition readKeys ::
  "('s, 'a, 'p) manager \<Rightarrow> ('s, 'a, 'p) world \<Rightarrow>
   (error + storedKey list) outcome \<times> ('s, 'a, 'p) world" where
  "readKeys m w =
     (case call_Get m w of
        (Inl err, w') \<Rightarrow> (Callback (Inl (''failed to read from storage: '' @ err)), w')
      | (Inr data, w') \<Rightarrow>
          (case readKeys_loop data [] of
             None \<Rightarrow> (Panic, w')
           | Some keys \<Rightarrow> (Callback (Inr keys), w')))"

text \<open>\<open>readKey\<close>: the callback receives the first key with the id, or \<open>nil\<close>.\<close>

definition readKey ::
  "('s, 'a, 'p) manager \<Rightarrow> ID \<Rightarrow> ('s, 'a, 'p) world \<Rightarrow>
   (error + storedKey option) outcome \<times> ('s, 'a, 'p) world" where
  "readKey m i w =
     (case readKeys m w of
        (Panic, w') \<Rightarrow> (Panic, w')
      | (Callback (Inl err), w') \<Rightarrow> (Callback (Inl (''failed to read keys: '' @ err)), w')
      | (Callback (Inr keys), w') \<Rightarrow>
          (Callback (Inr (find (\<lambda>k. storedKey.ID k = i) keys)), w'))"

definition writeKey ::
  "'p packages \<Rightarrow> ('s, 'a, 'p) manager \<Rightarrow> string \<Rightarrow> string \<Rightarrow> ('s, 'a, 'p) world \<Rightarrow>
   error option outcome \<times> ('s, 'a, 'p) world" where
  "writeKey P m name pemPrivateKey w =
     (case rand_Int P math_MaxInt64 of
        Inl err \<Rightarrow> (Callback (Some (''failed to generate new ID: '' @ err)), w)
      | Inr i \<Rightarrow>
          (let id' = big_String i;
               storageKey = keyPrefix @ id';
               sk = \<lparr>ID = id', Name = name, PEMPrivateKey = pemPrivateKey\<rparr>;
               data = [(storageKey, MapValue sk)]
           in case call_Set m data w of (err, w') \<Rightarrow> (Callback err, w')))"

definition removeKey ::
  "('s, 'a, 'p) manager \<Rightarrow> ID \<Rightarrow> ('s, 'a, 'p) world \<Rightarrow>
   error option outcome \<times> ('s, 'a, 'p) world" where
  "removeKey m i w =
     (case readKeys m w of
        (Panic, w') \<Rightarrow> (Panic, w')
      | (Callback (Inl err), w') \<Rightarrow>
          (Callback (Some (''failed to enumerate keys: '' @ err)), w')
      | (Callback (Inr keys), w') \<Rightarrow>
          (let storageKeys =
                 map (\<lambda>k. keyPrefix @ storedKey.ID k) (filter (\<lambda>k. storedKey.ID k = i) keys)
           in case call_Delete m storageKeys w' of
                (Some err, w'') \<Rightarrow> (Callback (Some (''failed to delete keys: '' @ err)), w'')
              | (None, w'') \<Rightarrow> (Callback None, w'')))"

definition Configured ::
  "'p packages \<Rightarrow> ('s, 'a, 'p) manager \<Rightarrow> ('s, 'a, 'p) world \<Rightarrow>
   (error + ConfiguredKey list) outcome \<times> ('s, 'a, 'p) world" where
  "Configured P m w =
     (case readKeys m w of
        (Panic, w') \<Rightarrow> (Panic, w')
      | (Callback (Inl err), w') \<Rightarrow> (Callback (Inl (''failed to read keys: '' @ err)), w')
      | (Callback (Inr keys), w') \<Rightarrow>
          (Callback (Inr (map (\<lambda>k. \<lparr>ConfiguredKey.ID = storedKey.ID k, Name = storedKey.Name k,
                                    Encrypted = storedKey_Encrypted P k\<rparr>) keys)), w'))"

definition Add ::
  "'p packages \<Rightarrow> ('s, 'a, 'p) manager \<Rightarrow> string \<Rightarrow> string \<Rightarrow> ('s, 'a, 'p) world \<Rightarrow>
   error option outcome \<times> ('s, 'a, 'p) world" where
  "Add P m name pemPrivateKey w =
     (if name = [] then (Callback (Some ''name must not be empty''), w)
      else writeKey P m name pemPrivateKey w)"

definition Remove ::
  "('s, 'a, 'p) manager \<Rightarrow> ID \<Rightarrow> ('s, 'a, 'p) world \<Rightarrow>
   error option outcome \<times> ('s, 'a, 'p) world" where
  "Remove m i w = removeKey m i w"

definition Loaded ::
  "('s, 'a, 'p) manager \<Rightarrow> ('s, 'a, 'p) world \<Rightarrow>
   (error + LoadedKey list) outcome \<times> ('s, 'a, 'p) world" where
  "Loaded m w =
     (case call_List m w of
        (Inl err, w') \<Rightarrow> (Callback (Inl (''failed to list loaded keys: '' @ err)), w')
      | (Inr loaded, w') \<Rightarrow>
          (Callback (Inr (map (\<lambda>l. (LoadedKey_SetBlob (Key_Marshal l)
                                      \<lparr>LoadedKey.Type = Key_Type l, blob = [], Comment = []\<rparr>)
                                    \<lparr>LoadedKey.Comment := agent_Key.Comment l\<rparr>) loaded)), w'))"

definition Load ::
  "'p packages \<Rightarrow> ('s, 'a, 'p) manager \<Rightarrow> ID \<Rightarrow> string \<Rightarrow> ('s, 'a, 'p) world \<Rightarrow>
   error option outcome \<times> ('s, 'a, 'p) world" where
  "Load P m i passphrase w =
     (case readKey m i w of
        (Panic, w') \<Rightarrow> (Panic, w')
      | (Callback (Inl err), w') \<Rightarrow> (Callback (Some (''failed to read key: '' @ err)), w')
      | (Callback (Inr None), w') \<Rightarrow>
          (Callback (Some (''failed to find key with ID '' @ i)), w')
      | (Callback (Inr (Some key)), w') \<Rightarrow>
          (case (if storedKey_Encrypted P key
                 then ssh_ParseRawPrivateKeyWithPassphrase P (bytes_of (PEMPrivateKey key))
                        (bytes_of passphrase)
                 else ssh_ParseRawPrivateKey P (bytes_of (PEMPrivateKey key))) of
             Inl err \<Rightarrow> (Callback (Some (''failed to parse private key: '' @ err)), w')
           | Inr priv \<Rightarrow>
               (case call_Add m \<lparr>PrivateKey = priv, Comment = encodeComment i\<rparr> w' of
                  (Some err, w'') \<Rightarrow>
                    (Callback (Some (''failed to add key to agent: '' @ err)), w'')
                | (None, w'') \<Rightarrow> (Callback None, w''))))"


subsection \<open>Implementations of the two interfaces\<close>

text \<open>
  Modelled from the spec: the Persistent Store adapter (the Chrome storage behind
  \<open>PersistentStore\<close>), which is not part of the source file. It is a key/value store
  over string keys: \<open>Get\<close> returns the entire namespace, \<open>Set\<close> writes the given
  entries, replacing those of the same key, \<open>Delete\<close> removes the given keys. A call can
  fail: \<open>faults\<close> holds the outcome of each coming call, and a call that fails changes no
  entry.
\<close>

record mem =
  entries :: storage_data
  faults :: "error option list"

definition next_fault :: "mem \<Rightarrow> error option \<times> mem" where
  "next_fault s = (case faults s of [] \<Rightarrow> (None, s) | f # fs \<Rightarrow> (f, s\<lparr>faults := fs\<rparr>))"

definition put :: "string \<times> stored_value \<Rightarrow> storage_data \<Rightarrow> storage_data" where
  "put e es = filter (\<lambda>e'. fst e' \<noteq> fst e) es @ [e]"

definition memStore :: "mem PersistentStore" where
  "memStore =
     \<lparr>storage_Set = (\<lambda>data s.
        case next_fault s of
          (Some e, s') \<Rightarrow> (Some e, s')
        | (None, s') \<Rightarrow> (None, s'\<lparr>entries := fold put data (entries s')\<rparr>)),
      storage_Get = (\<lambda>s.
        case next_fault s of
          (Some e, s') \<Rightarrow> (Inl e, s')
        | (None, s') \<Rightarrow> (Inr (entries s'), s')),
      storage_Delete = (\<lambda>ks s.
        case next_fault s of
          (Some e, s') \<Rightarrow> (Some e, s')
        | (None, s') \<Rightarrow> (None, s'\<lparr>entries := filter (\<lambda>e. fst e \<notin> set ks) (entries s')\<rparr>))\<rparr>"

text \<open>
  The layout that \<open>writeKey\<close> produces: a key record lies under the storage key
  \<open>keyPrefix\<close> followed by its own id.
\<close>

definition key_layout :: "storage_data \<Rightarrow> bool" where
  "key_layout es =
     list_all (\<lambda>e. case snd e of
                      MapValue sk \<Rightarrow> \<not> HasPrefix (fst e) keyPrefix \<or> fst e = keyPrefix @ storedKey.ID sk
                    | OtherValue \<Rightarrow> True) es"

text \<open>
  Modelled from the spec: the Agent adapter, which is not part of the source file, as a
  key ring that holds the keys added so far. A private key is here the pair of a key type
  and the public blob; \<open>Remove\<close> fails on a key that is not loaded.
\<close>

definition keyring :: "(agent_Key list, string \<times> byte list) Agent" where
  "keyring =
     \<lparr>agent_List = (\<lambda>ks. (Inr ks, ks)),
      agent_Add = (\<lambda>k ks.
        (None, ks @ [\<lparr>Format = fst (PrivateKey k), Blob = snd (PrivateKey k),
                      Comment = AddedKey.Comment k\<rparr>])),
      agent_Remove = (\<lambda>k ks.
        if list_ex (\<lambda>k'. Blob k' = Blob k) ks
        then (None, filter (\<lambda>k'. Blob k' \<noteq> Blob k) ks)
        else (Some ''agent: key not found'', ks))\<rparr>"

text \<open>
  An instance of the packages for that agent, on which the operations can be evaluated:
  an encrypted key is the text \<open>ENC:\<close>, a passphrase, \<open>:\<close>, and the key material; a
  plain key is \<open>RAW:\<close> and the key material; any other text has no PEM block.
  \<open>rand.Int\<close> returns \<open>r\<close> when it lies below the bound and fails otherwise.
  \<open>string_of\<close> is the conversion \<open>string(b)\<close>.
\<close>

definition string_of :: "byte list \<Rightarrow> string" where
  "string_of b = map (\<lambda>x. char_of (unat x)) b"

definition toy_packages :: "int \<Rightarrow> (string \<times> byte list) packages" where
  "toy_packages r =
     \<lparr>pem_Decode = (\<lambda>b.
        if HasPrefix (string_of b) ''ENC:''
        then Some \<lparr>Type = ''RSA PRIVATE KEY'',
                   Headers = [''Proc-Type'' \<mapsto> ''4,ENCRYPTED'', ''DEK-Info'' \<mapsto> ''AES-128-CBC''],
                   Bytes = drop 4 b\<rparr>
        else if HasPrefix (string_of b) ''RAW:''
        then Some \<lparr>Type = ''RSA PRIVATE KEY'', Headers = Map.empty, Bytes = drop 4 b\<rparr>
        else None),
      ssh_ParseRawPrivateKey = (\<lambda>b.
        if HasPrefix (string_of b) ''RAW:'' then Inr (''ssh-rsa'', drop 4 b)
        else Inl ''ssh: no key found''),
      ssh_ParseRawPrivateKeyWithPassphrase = (\<lambda>b pass.
        if HasPrefix (string_of b) (''ENC:'' @ string_of pass @ '':'')
        then Inr (''ssh-rsa'', drop (5 + length pass) b)
        else Inl ''x509: decryption password incorrect''),
      rand_Int = (\<lambda>bound. if 0 \<le> r \<and> r < bound then Inr r else Inl ''unexpected EOF'')\<rparr>"

text \<open>A manager on these implementations, and a world with the given entries, no fault
  to come, an empty key ring, no call made and an empty log.\<close>

definition test_manager :: "(mem, agent_Key list, string \<times> byte list) manager" where
  "test_manager = \<lparr>agent = keyring, storage = memStore\<rparr>"

definition test_world :: "storage_data \<Rightarrow> (mem, agent_Key list, string \<times> byte list) world" where
  "test_world es =
     \<lparr>storage_state = \<lparr>entries = es, faults = []\<rparr>, agent_state = [], calls = [], log = []\<rparr>"

section \<open>Properties\<close>

subsection \<open>Base64 round trip\<close>

lemma distinct_encodeStd: "distinct encodeStd" by (simp add: encodeStd_def)
lemma length_encodeStd: "length encodeStd = 64" by (simp add: encodeStd_def)

lemma decodeMap_encodeStd:
  assumes "i < 64" shows "decodeMap (encodeStd ! i) = of_nat i"
proof -
  have "map_of (zip encodeStd (map of_nat [0..<64] :: byte list)) (encodeStd ! i)
        = Some (map of_nat [0..<64] ! i)"
    using assms by (intro map_of_zip_nth) (simp_all add: length_encodeStd distinct_encodeStd)
  then show ?thesis using assms by (simp add: decodeMap_def del: upt_rec_numeral)
qed

lemma mask6: "(0x3F :: 32 word) = mask 6" by (simp add: mask_eq_exp_minus_1)

lemma unat_sextet: "unat (w AND (0x3F :: 32 word)) < 64"
proof -
  have "w AND (0x3F :: 32 word) \<le> 0x3F" by (rule word_and_le1)
  then have "unat (w AND (0x3F :: 32 word)) \<le> unat (0x3F :: 32 word)"
    by (simp add: word_le_nat_alt)
  then show ?thesis by simp
qed

lemma decodeMap_encode: "decodeMap (encode (w AND 0x3F)) = ucast (w AND 0x3F)"
  unfolding encode_def
  by (simp add: decodeMap_encodeStd [OF unat_sextet])

lemma sextet_not_FF: "(ucast (w AND (0x3F :: 32 word)) :: byte) \<noteq> 0xFF"
proof
  assume "(ucast (w AND (0x3F :: 32 word)) :: byte) = 0xFF"
  then have "bit (ucast (w AND (0x3F :: 32 word)) :: byte) 7 = bit (0xFF :: byte) 7" by simp
  then show False by (simp add: mask6 bit_simps)
qed

lemma encode_in: "encode (w AND 0x3F) \<in> set encodeStd"
  unfolding encode_def using unat_sextet [of w] by (simp add: length_encodeStd)

lemma ucast_sextet: "ucast (ucast (w AND mask 6 :: 32 word) :: byte) = (w AND mask 6 :: 32 word)"
  by (rule bit_word_eqI) (auto simp: bit_simps)

lemma sextets_join:
  "push_bit 18 (drop_bit 18 v AND mask 6) OR push_bit 12 (drop_bit 12 v AND mask 6) OR
   push_bit 6 (drop_bit 6 v AND mask 6) OR (v AND mask 6) = take_bit 24 (v :: 32 word)"
proof (rule bit_word_eqI)
  fix n assume "n < LENGTH(32)"
  show "bit (push_bit 18 (drop_bit 18 v AND mask 6) OR push_bit 12 (drop_bit 12 v AND mask 6) OR
   push_bit 6 (drop_bit 6 v AND mask 6) OR (v AND mask 6)) n = bit (take_bit 24 v) n"
  proof -
    consider "n < 6" | "6 \<le> n \<and> n < 12" | "12 \<le> n \<and> n < 18" | "18 \<le> n \<and> n < 24" | "24 \<le> n"
      by linarith
    then show ?thesis
      by cases (auto simp add: bit_simps cong: conj_cong)
  qed
qed

lemma take_bit_val3: "take_bit 24 (val3 a b c) = val3 a b c"
  unfolding val3_def
  by (rule bit_word_eqI) (auto simp: bit_simps dest: bit_imp_le_length)

lemma val3_byte0: "ucast (drop_bit 16 (val3 a b c)) = a"
  unfolding val3_def
  by (rule bit_word_eqI) (auto simp: bit_simps dest: bit_imp_le_length)

lemma val3_byte1: "ucast (drop_bit 8 (val3 a b c)) = b"
  unfolding val3_def
  by (rule bit_word_eqI) (auto simp: bit_simps dest: bit_imp_le_length)

lemma val3_byte2: "ucast (val3 a b c) = c"
  unfolding val3_def
  by (rule bit_word_eqI) (auto simp: bit_simps dest: bit_imp_le_length)

lemma val3_low6: "val3 a b 0 AND mask 6 = 0"
  unfolding val3_def
  by (rule bit_word_eqI) (auto simp: bit_simps)

lemma val3_mid6: "drop_bit 6 (val3 a 0 0) AND mask 6 = 0"
  unfolding val3_def
  by (rule bit_word_eqI) (auto simp: bit_simps)

lemma quantum_sextets:
  "quantum (ucast (drop_bit 18 v AND 0x3F)) (ucast (drop_bit 12 v AND 0x3F))
           (ucast (drop_bit 6 v AND 0x3F)) (ucast (v AND 0x3F)) = take_bit 24 v"
  unfolding quantum_def mask6 ucast_sextet by (rule sextets_join)

lemma quantum_val3:
  "quantum (ucast (drop_bit 18 (val3 a b c) AND 0x3F)) (ucast (drop_bit 12 (val3 a b c) AND 0x3F))
           (ucast (drop_bit 6 (val3 a b c) AND 0x3F)) (ucast (val3 a b c AND 0x3F)) = val3 a b c"
  by (simp only: quantum_sextets take_bit_val3)

lemma quantum_val2:
  "quantum (ucast (drop_bit 18 (val3 a b 0) AND 0x3F)) (ucast (drop_bit 12 (val3 a b 0) AND 0x3F))
           (ucast (drop_bit 6 (val3 a b 0) AND 0x3F)) 0 = val3 a b 0"
  using quantum_val3 [of a b 0] by (simp add: mask6 val3_low6)

lemma quantum_val1:
  "quantum (ucast (drop_bit 18 (val3 a 0 0) AND 0x3F)) (ucast (drop_bit 12 (val3 a 0 0) AND 0x3F))
           0 0 = val3 a 0 0"
  using quantum_val2 [of a 0] by (simp add: mask6 val3_mid6)

lemma padChar_not_encodeStd: "padChar \<notin> set encodeStd"
  by (simp add: encodeStd_def padChar_def)

lemma decodeMap_padChar: "decodeMap padChar = 0xFF"
proof -
  have "padChar \<notin> fst ` set (zip encodeStd (map of_nat [0..<64] :: byte list))"
    using padChar_not_encodeStd by (auto dest: set_zip_leftD)
  then have "map_of (zip encodeStd (map of_nat [0..<64] :: byte list)) padChar = None"
    by (simp only: map_of_eq_None_iff not_False_eq_True)
  then show ?thesis by (simp add: decodeMap_def)
qed

lemma decodeQuanta_EncodeToString: "decodeQuanta (EncodeToString src) = Inr src"
proof (induction src rule: EncodeToString.induct)
  case (1 a b c src)
  define val :: "32 word" where "val = val3 a b c"
  have enc: "EncodeToString (a # b # c # src) =
      encode (drop_bit 18 val AND 0x3F) # encode (drop_bit 12 val AND 0x3F) #
      encode (drop_bit 6 val AND 0x3F) # encode (val AND 0x3F) # EncodeToString src"
    by (simp add: val_def val3_def Let_def)
  have q: "quantum (ucast (drop_bit 18 val AND 0x3F)) (ucast (drop_bit 12 val AND 0x3F))
      (ucast (drop_bit 6 val AND 0x3F)) (ucast (val AND 0x3F)) = val"
    unfolding val_def by (rule quantum_val3)
  have bs: "ucast (drop_bit 16 val) = a" "ucast (drop_bit 8 val) = b" "ucast val = c"
    unfolding val_def by (rule val3_byte0 val3_byte1 val3_byte2)+
  show ?case
    unfolding enc using 1 by (simp add: decodeMap_encode sextet_not_FF q bs)
next
  case (2 a b)
  define val :: "32 word" where "val = val3 a b 0"
  have enc: "EncodeToString [a, b] =
      [encode (drop_bit 18 val AND 0x3F), encode (drop_bit 12 val AND 0x3F),
       encode (drop_bit 6 val AND 0x3F), padChar]"
    by (simp add: val_def val3_def Let_def)
  have q: "quantum (ucast (drop_bit 18 val AND 0x3F)) (ucast (drop_bit 12 val AND 0x3F))
      (ucast (drop_bit 6 val AND 0x3F)) 0 = val"
    unfolding val_def by (rule quantum_val2)
  have bs: "ucast (drop_bit 16 val) = a" "ucast (drop_bit 8 val) = b"
    unfolding val_def by (rule val3_byte0 val3_byte1)+
  show ?case
    unfolding enc by (simp add: decodeMap_encode sextet_not_FF decodeMap_padChar q bs)
next
  case (3 a)
  define val :: "32 word" where "val = val3 a 0 0"
  have enc: "EncodeToString [a] =
      [encode (drop_bit 18 val AND 0x3F), encode (drop_bit 12 val AND 0x3F), padChar, padChar]"
    by (simp add: val_def val3_def Let_def)
  have q: "quantum (ucast (drop_bit 18 val AND 0x3F)) (ucast (drop_bit 12 val AND 0x3F)) 0 0 = val"
    unfolding val_def by (rule quantum_val1)
  have bs: "ucast (drop_bit 16 val) = a"
    unfolding val_def by (rule val3_byte0)
  show ?case
    unfolding enc by (simp add: decodeMap_encode sextet_not_FF decodeMap_padChar q bs)
next
  case 4
  show ?case by simp
qed

lemma EncodeToString_chars: "set (EncodeToString src) \<subseteq> insert padChar (set encodeStd)"
  by (induction src rule: EncodeToString.induct) (auto simp: Let_def encode_in)

lemma EncodeToString_no_newline:
  "filter (\<lambda>c. c \<noteq> CHR 0x0A \<and> c \<noteq> CHR 0x0D) (EncodeToString src) = EncodeToString src"
proof -
  have "CHR 0x0A \<notin> insert padChar (set encodeStd)" "CHR 0x0D \<notin> insert padChar (set encodeStd)"
    by (simp_all add: encodeStd_def padChar_def)
  then have "\<forall>c \<in> set (EncodeToString src). c \<noteq> CHR 0x0A \<and> c \<noteq> CHR 0x0D"
    using EncodeToString_chars [of src] by blast
  then show ?thesis by (simp add: filter_id_conv)
qed

lemma DecodeString_EncodeToString: "DecodeString (EncodeToString src) = Inr src"
  by (simp add: DecodeString_def EncodeToString_no_newline decodeQuanta_EncodeToString)

subsection \<open>Identity scheme\<close>

lemma HasPrefix_iff_prefix: "HasPrefix s pre \<longleftrightarrow> prefix pre s"
  unfolding HasPrefix_def prefix_def
  by (metis append_eq_conv_conj append_take_drop_id length_append le_add1)

lemma HasPrefix_append: "HasPrefix (pre @ s) pre"
  by (simp add: HasPrefix_def)

lemma TrimPrefix_append: "TrimPrefix (pre @ s) pre = s"
  by (simp add: TrimPrefix_def HasPrefix_def)

text \<open>
  Claim C2. Decoding the comment produced for an id gives the id back, for every id; and a
  comment that does not begin with the fixed prefix decodes to the invalid-id sentinel (a
  value, not an error).
\<close>

theorem C2_identity_roundtrip:
  "LoadedKey_ID (k\<lparr>LoadedKey.Comment := encodeComment i\<rparr>) = i \<and>
   (\<not> prefix commentPrefix c \<longrightarrow> LoadedKey_ID (k\<lparr>LoadedKey.Comment := c\<rparr>) = InvalidID)"
  by (simp add: LoadedKey_ID_def encodeComment_def HasPrefix_append TrimPrefix_append
      HasPrefix_iff_prefix)

theorem C2_identity_roundtrip_witness:
  "LoadedKey_ID (\<lparr>LoadedKey.Type = ''ssh-rsa'', blob = '''', Comment = ''x''\<rparr>
       \<lparr>LoadedKey.Comment := encodeComment ''42''\<rparr>) = ''42'' \<and>
   \<not> prefix commentPrefix ''chrome-ssh-agent42'' \<and>
   LoadedKey_ID (\<lparr>LoadedKey.Type = ''ssh-rsa'', blob = '''', Comment = ''x''\<rparr>
       \<lparr>LoadedKey.Comment := ''chrome-ssh-agent42''\<rparr>) = InvalidID"
  using C2_identity_roundtrip [where k = "\<lparr>LoadedKey.Type = ''ssh-rsa'', blob = '''', Comment = ''x''\<rparr>"
      and i = "''42''" and c = "''chrome-ssh-agent42''"]
  by (simp add: commentPrefix_def)

text \<open>
  Claim C10. A comment that is exactly the prefix, with nothing after it, resolves to the
  invalid id, the empty string: the same id as a comment that does not carry the prefix.
\<close>

theorem C10_empty_remainder:
  "LoadedKey_ID (k\<lparr>LoadedKey.Comment := commentPrefix\<rparr>) = InvalidID \<and>
   InvalidID = [] \<and>
   (\<not> prefix commentPrefix c \<longrightarrow>
      LoadedKey_ID (k\<lparr>LoadedKey.Comment := commentPrefix\<rparr>) =
      LoadedKey_ID (k\<lparr>LoadedKey.Comment := c\<rparr>))"
  by (simp add: LoadedKey_ID_def TrimPrefix_def HasPrefix_def InvalidID_def
      HasPrefix_iff_prefix [symmetric])

theorem C10_empty_remainder_witness:
  "LoadedKey_ID (\<lparr>LoadedKey.Type = ''ssh-rsa'', blob = [], Comment = []\<rparr>
       \<lparr>LoadedKey.Comment := commentPrefix\<rparr>) = [] \<and>
   \<not> prefix commentPrefix ''user@host'' \<and>
   LoadedKey_ID (\<lparr>LoadedKey.Type = ''ssh-rsa'', blob = [], Comment = []\<rparr>
       \<lparr>LoadedKey.Comment := commentPrefix\<rparr>) =
   LoadedKey_ID (\<lparr>LoadedKey.Type = ''ssh-rsa'', blob = [], Comment = []\<rparr>
       \<lparr>LoadedKey.Comment := ''user@host''\<rparr>)"
proof -
  have np: "\<not> prefix commentPrefix ''user@host''"
    by (simp add: commentPrefix_def)
  show ?thesis
    using C10_empty_remainder [where k = "\<lparr>LoadedKey.Type = ''ssh-rsa'', blob = [], Comment = []\<rparr>"
        and c = "''user@host''"] np
    by (auto simp add: InvalidID_def)
qed

subsection \<open>Encrypted keys\<close>

lemma Contains_iff: "Contains s sub \<longleftrightarrow> (\<exists>u v. s = u @ sub @ v)"
proof (induction s)
  case Nil
  show ?case by auto
next
  case (Cons c s)
  show ?case
  proof
    assume "Contains (c # s) sub"
    then consider "HasPrefix (c # s) sub" | "Contains s sub" by auto
    then show "\<exists>u v. c # s = u @ sub @ v"
    proof cases
      case 1
      then obtain v where "c # s = sub @ v" by (auto simp: HasPrefix_iff_prefix prefix_def)
      then have "c # s = [] @ sub @ v" by simp
      then show ?thesis by blast
    next
      case 2
      then obtain u v where "s = u @ sub @ v" using Cons.IH by blast
      then have "c # s = (c # u) @ sub @ v" by simp
      then show ?thesis by blast
    qed
  next
    assume "\<exists>u v. c # s = u @ sub @ v"
    then obtain u v where uv: "c # s = u @ sub @ v" by blast
    show "Contains (c # s) sub"
    proof (cases u)
      case Nil
      then have "prefix sub (c # s)" using uv by (simp add: prefix_def)
      then show ?thesis by (simp add: HasPrefix_iff_prefix)
    next
      case (Cons d u')
      then have "s = u' @ sub @ v" using uv by simp
      then have "Contains s sub" using Cons.IH by blast
      then show ?thesis by simp
    qed
  qed
qed

lemma unat_of_char: "unat (of_char c :: byte) = of_char c"
proof -
  have "(of_char c :: byte) = of_nat (of_char c)" by (simp add: of_nat_of_char)
  then have "unat (of_char c :: byte) = of_char c mod 256"
    by (simp only: unat_of_nat) simp
  then show ?thesis by simp
qed

lemma string_of_bytes_of: "string_of (bytes_of s) = s"
  by (simp add: string_of_def bytes_of_def comp_def unat_of_char map_idI)

text \<open>
  Claim C3. The encrypted flag of a stored key is true exactly when its PEM text decodes
  to a block whose \<open>Proc-Type\<close> header has a value with \<open>ENCRYPTED\<close> in it: it is false
  when that marker is absent, and false, not an error, when the text has no PEM block.
\<close>

theorem C3_encrypted_detection:
  "storedKey_Encrypted P s \<longleftrightarrow>
     (\<exists>block value. pem_Decode P (bytes_of (PEMPrivateKey s)) = Some block \<and>
        Headers block ''Proc-Type'' = Some value \<and>
        (\<exists>u v. value = u @ ''ENCRYPTED'' @ v))"
  by (auto simp: storedKey_Encrypted_def header_def Contains_iff split: option.splits)

theorem C3_encrypted_detection_witness:
  "storedKey_Encrypted (toy_packages 0) \<lparr>ID = ''1'', Name = ''work'', PEMPrivateKey = ''ENC:pw:k''\<rparr> \<and>
   \<not> storedKey_Encrypted (toy_packages 0) \<lparr>ID = ''2'', Name = ''home'', PEMPrivateKey = ''RAW:k''\<rparr> \<and>
   \<not> storedKey_Encrypted (toy_packages 0) \<lparr>ID = ''3'', Name = ''junk'', PEMPrivateKey = ''junk''\<rparr>"
proof -
  have 1: "pem_Decode (toy_packages 0) (bytes_of ''ENC:pw:k'') =
      Some \<lparr>Type = ''RSA PRIVATE KEY'',
            Headers = [''Proc-Type'' \<mapsto> ''4,ENCRYPTED'', ''DEK-Info'' \<mapsto> ''AES-128-CBC''],
            Bytes = drop 4 (bytes_of ''ENC:pw:k'')\<rparr>"
    by (simp add: toy_packages_def string_of_bytes_of HasPrefix_def)
  have 2: "pem_Decode (toy_packages 0) (bytes_of ''RAW:k'') =
      Some \<lparr>Type = ''RSA PRIVATE KEY'', Headers = Map.empty, Bytes = drop 4 (bytes_of ''RAW:k'')\<rparr>"
    by (simp add: toy_packages_def string_of_bytes_of HasPrefix_def)
  have 3: "pem_Decode (toy_packages 0) (bytes_of ''junk'') = None"
    by (simp add: toy_packages_def string_of_bytes_of HasPrefix_def)
  have "''4,ENCRYPTED'' = ''4,'' @ ''ENCRYPTED'' @ []" by simp
  then have e: "\<exists>u v. ''4,ENCRYPTED'' = u @ ''ENCRYPTED'' @ v" by blast
  show ?thesis
    using C3_encrypted_detection [of "toy_packages 0" "\<lparr>ID = ''1'', Name = ''work'', PEMPrivateKey = ''ENC:pw:k''\<rparr>"]
      C3_encrypted_detection [of "toy_packages 0" "\<lparr>ID = ''2'', Name = ''home'', PEMPrivateKey = ''RAW:k''\<rparr>"]
      C3_encrypted_detection [of "toy_packages 0" "\<lparr>ID = ''3'', Name = ''junk'', PEMPrivateKey = ''junk''\<rparr>"]
      e
    by (simp add: 1 2 3)
qed

text \<open>Only the \<open>Proc-Type\<close> header is looked at: the same text in another header does
  not make a key encrypted.\<close>

lemma Encrypted_other_header:
  assumes "pem_Decode P (bytes_of (PEMPrivateKey s)) =
      Some \<lparr>Type = ''RSA PRIVATE KEY'', Headers = [''DEK-Info'' \<mapsto> ''ENCRYPTED''], Bytes = []\<rparr>"
  shows "\<not> storedKey_Encrypted P s"
  using assms by (simp add: storedKey_Encrypted_def header_def)

subsection \<open>The blob of a loaded key\<close>

lemma Loaded_blobs:
  assumes "call_List m w = (Inr loaded, w')"
  shows "\<exists>ks. Loaded m w = (Callback (Inr ks), w') \<and> length ks = length loaded \<and>
           map LoadedKey_Blob ks = map (\<lambda>l. (Blob l, [])) loaded \<and>
           map LoadedKey.Type ks = map Format loaded \<and>
           map LoadedKey.Comment ks = map agent_Key.Comment loaded"
  using assms
  by (simp add: Loaded_def LoadedKey_Blob_def LoadedKey_SetBlob_def Key_Marshal_def Key_Type_def
      DecodeString_EncodeToString comp_def)

text \<open>
  Claim C8. Reading the blob back after setting it returns the bytes that were set, and
  logs nothing. A stored blob that does not decode reads as the empty byte sequence, with
  one line written to the log: \<open>Blob\<close> has no error result, so nothing is propagated.
  \<open>Loaded\<close> succeeds whenever the agent's \<open>List\<close> does, and the blob of each key it
  returns reads back as the listed key's blob.
\<close>

theorem C8_blob_roundtrip:
  "fst (LoadedKey_Blob (LoadedKey_SetBlob b k)) = b \<and>
   snd (LoadedKey_Blob (LoadedKey_SetBlob b k)) = [] \<and>
   (DecodeString (blob k') = Inl err \<longrightarrow>
      LoadedKey_Blob k' = ([], [(''failed to decode key blob: %v'', err)])) \<and>
   (call_List m w = (Inr loaded, w') \<longrightarrow>
      (\<exists>ks. Loaded m w = (Callback (Inr ks), w') \<and>
            map LoadedKey_Blob ks = map (\<lambda>l. (Blob l, [])) loaded))"
  using Loaded_blobs [of m w loaded w']
  by (auto simp add: LoadedKey_Blob_def LoadedKey_SetBlob_def DecodeString_EncodeToString)

theorem C8_blob_roundtrip_witness:
  "fst (LoadedKey_Blob (LoadedKey_SetBlob [0x6b, 0xff]
          \<lparr>LoadedKey.Type = ''ssh-rsa'', blob = [], Comment = []\<rparr>)) = [0x6b, 0xff] \<and>
   DecodeString (blob \<lparr>LoadedKey.Type = ''ssh-rsa'', blob = ''a*=='', Comment = []\<rparr>) =
     Inl CorruptInputError \<and>
   LoadedKey_Blob \<lparr>LoadedKey.Type = ''ssh-rsa'', blob = ''a*=='', Comment = []\<rparr> =
     ([], [(''failed to decode key blob: %v'', CorruptInputError)]) \<and>
   call_List test_manager
      ((test_world [])\<lparr>agent_state := [\<lparr>Format = ''ssh-rsa'', Blob = [0x6b, 0xff], Comment = ''c''\<rparr>]\<rparr>) =
     (Inr [\<lparr>Format = ''ssh-rsa'', Blob = [0x6b, 0xff], Comment = ''c''\<rparr>],
      (test_world [])\<lparr>agent_state := [\<lparr>Format = ''ssh-rsa'', Blob = [0x6b, 0xff], Comment = ''c''\<rparr>],
                       calls := [Agent_List]\<rparr>) \<and>
   (\<exists>ks. Loaded test_manager
      ((test_world [])\<lparr>agent_state := [\<lparr>Format = ''ssh-rsa'', Blob = [0x6b, 0xff], Comment = ''c''\<rparr>]\<rparr>) =
     (Callback (Inr ks),
      (test_world [])\<lparr>agent_state := [\<lparr>Format = ''ssh-rsa'', Blob = [0x6b, 0xff], Comment = ''c''\<rparr>],
                       calls := [Agent_List]\<rparr>) \<and>
     map LoadedKey_Blob ks = [([0x6b, 0xff], [])])"
proof -
  let ?k = "\<lparr>LoadedKey.Type = ''ssh-rsa'', blob = [], Comment = []\<rparr>"
  let ?k' = "\<lparr>LoadedKey.Type = ''ssh-rsa'', blob = ''a*=='', Comment = []\<rparr>"
  let ?l = "\<lparr>Format = ''ssh-rsa'', Blob = [0x6b, 0xff], Comment = ''c''\<rparr>"
  let ?w = "(test_world [])\<lparr>agent_state := [?l]\<rparr>"
  have d: "DecodeString (blob ?k') = Inl CorruptInputError"
    by code_simp
  have l: "call_List test_manager ?w = (Inr [?l], ?w\<lparr>calls := [Agent_List]\<rparr>)"
    by (simp add: call_List_def test_manager_def keyring_def test_world_def)
  note t = C8_blob_roundtrip [where b = "[0x6b, 0xff]" and k = ?k and k' = ?k'
      and err = CorruptInputError and m = test_manager and w = ?w and loaded = "[?l]"
      and w' = "?w\<lparr>calls := [Agent_List]\<rparr>"]
  from t have g1: "fst (LoadedKey_Blob (LoadedKey_SetBlob [0x6b, 0xff] ?k)) = [0x6b, 0xff]"
    by blast
  from t d have g2: "LoadedKey_Blob ?k' = ([], [(''failed to decode key blob: %v'', CorruptInputError)])"
    by blast
  from t l have "\<exists>ks. Loaded test_manager ?w = (Callback (Inr ks), ?w\<lparr>calls := [Agent_List]\<rparr>) \<and>
      map LoadedKey_Blob ks = map (\<lambda>l. (Blob l, [])) [?l]"
    by blast
  then have g3: "\<exists>ks. Loaded test_manager ?w = (Callback (Inr ks), ?w\<lparr>calls := [Agent_List]\<rparr>) \<and>
      map LoadedKey_Blob ks = [([0x6b, 0xff], [])]"
    by simp
  from l have l': "call_List test_manager ?w =
      (Inr [?l], (test_world [])\<lparr>agent_state := [?l], calls := [Agent_List]\<rparr>)"
    by simp
  from g3 have g3': "\<exists>ks. Loaded test_manager ?w =
        (Callback (Inr ks), (test_world [])\<lparr>agent_state := [?l], calls := [Agent_List]\<rparr>) \<and>
      map LoadedKey_Blob ks = [([0x6b, 0xff], [])]"
    by simp
  show ?thesis using g1 d g2 l' g3' by blast
qed

subsection \<open>Add with an empty name\<close>

text \<open>
  Claim C4. For every PEM text and every state, \<open>Add\<close> with the empty name reports the
  validation error and leaves the state as it was: the store's state is unchanged and no
  call, so no \<open>Set\<close>, is made.
\<close>

theorem C4_add_empty_name:
  "Add P m [] pemPrivateKey w = (Callback (Some ''name must not be empty''), w)"
  by (simp add: Add_def)

theorem C4_add_empty_name_witness:
  "Add (toy_packages 5) test_manager [] ''RAW:k'' (test_world []) =
     (Callback (Some ''name must not be empty''), test_world [])"
  using C4_add_empty_name [of "toy_packages 5" test_manager "''RAW:k''" "test_world []"] by simp

subsection \<open>Load and Unload\<close>

lemma call_Get_calls:
  "call_Get m w = (r, w') \<Longrightarrow>
     calls w' = calls w @ [Storage_Get] \<and> agent_state w' = agent_state w \<and> log w' = log w"
  by (auto simp: call_Get_def split: prod.splits)

lemma readKeys_calls:
  "readKeys m w = (r, w') \<Longrightarrow>
     calls w' = calls w @ [Storage_Get] \<and> agent_state w' = agent_state w \<and> log w' = log w"
  by (auto simp: readKeys_def split: prod.splits sum.splits option.splits dest: call_Get_calls)

lemma find_None_ID: "(find (\<lambda>k. storedKey.ID k = i) keys = None) = (\<forall>k\<in>set keys. storedKey.ID k \<noteq> i)"
  by (auto simp: find_None_iff)

text \<open>
  Claim C6. When the storage read succeeds and no stored record has the id, \<open>Load\<close>
  reports that the key was not found, whatever the passphrase, and the only call made is
  the \<open>Get\<close> of the storage: no operation of the agent is called and the agent's state
  is the same.
\<close>

theorem C6_load_unknown_id:
  assumes "readKeys m w = (Callback (Inr keys), w')"
    and "\<forall>k\<in>set keys. storedKey.ID k \<noteq> i"
  shows "Load P m i passphrase w = (Callback (Some (''failed to find key with ID '' @ i)), w') \<and>
         calls w' = calls w @ [Storage_Get] \<and> agent_state w' = agent_state w"
proof -
  have "find (\<lambda>k. storedKey.ID k = i) keys = None"
    using assms(2) by (simp add: find_None_ID)
  then have "readKey m i w = (Callback (Inr None), w')"
    using assms(1) by (simp add: readKey_def)
  then have "Load P m i passphrase w = (Callback (Some (''failed to find key with ID '' @ i)), w')"
    by (simp add: Load_def)
  then show ?thesis using readKeys_calls [OF assms(1)] by simp
qed

lemma readKey_found:
  assumes "readKey m i w = (Callback (Inr (Some key)), w')"
  shows "storedKey.ID key = i \<and> calls w' = calls w @ [Storage_Get] \<and>
         agent_state w' = agent_state w"
proof -
  obtain keys where rk: "readKeys m w = (Callback (Inr keys), w')"
    and f: "find (\<lambda>k. storedKey.ID k = i) keys = Some key"
    using assms by (auto simp: readKey_def split: prod.splits outcome.splits sum.splits)
  from f have "storedKey.ID key = i" by (auto simp: find_Some_iff)
  then show ?thesis using readKeys_calls [OF rk] by simp
qed

text \<open>
  Claim C1. When the storage read succeeds and a record with the id is found, the private
  key is parsed with the passphrase if the record is encrypted and without one if it is
  not; when the parse succeeds, the agent's \<open>Add\<close> is called, once, with the parsed key
  and the comment \<open>chrome-ssh-agent:\<close> followed by the id, and its error, if any, is
  reported with context.
\<close>

theorem C1_load_found:
  assumes "readKey m i w = (Callback (Inr (Some key)), w')"
    and "agent_Add (agent m) \<lparr>PrivateKey = priv, Comment = ''chrome-ssh-agent:'' @ i\<rparr>
           (agent_state w') = (r, a)"
  shows
    "(storedKey_Encrypted P key \<and>
      ssh_ParseRawPrivateKeyWithPassphrase P (bytes_of (PEMPrivateKey key)) (bytes_of passphrase) =
        Inr priv \<longrightarrow>
        Load P m i passphrase w =
          (Callback (map_option (\<lambda>err. ''failed to add key to agent: '' @ err) r),
           w'\<lparr>agent_state := a,
              calls := calls w @
                [Storage_Get, Agent_Add \<lparr>PrivateKey = priv, Comment = encodeComment i\<rparr>]\<rparr>)) \<and>
     (\<not> storedKey_Encrypted P key \<and>
      ssh_ParseRawPrivateKey P (bytes_of (PEMPrivateKey key)) = Inr priv \<longrightarrow>
        Load P m i passphrase w =
          (Callback (map_option (\<lambda>err. ''failed to add key to agent: '' @ err) r),
           w'\<lparr>agent_state := a,
              calls := calls w @
                [Storage_Get, Agent_Add \<lparr>PrivateKey = priv, Comment = encodeComment i\<rparr>]\<rparr>)) \<and>
     encodeComment i = ''chrome-ssh-agent:'' @ i \<and> storedKey.ID key = i"
  using assms readKey_found [OF assms(1)]
  by (cases r) (simp_all add: Load_def call_Add_def encodeComment_def commentPrefix_def)


text \<open>The definitions to unfold when an operation is evaluated on the test manager.\<close>

lemmas test_defs =
  test_manager_def test_world_def memStore_def keyring_def toy_packages_def next_fault_def
  readKeys_def readKey_def call_Get_def call_Set_def call_Delete_def call_Add_def call_Remove_def
  call_List_def HasPrefix_def keyPrefix_def newStoredKey_def string_of_bytes_of
  storedKey_Encrypted_def header_def

theorem C6_load_unknown_id_witness:
  "readKeys test_manager
      (test_world [(''key.1'', MapValue \<lparr>ID = ''1'', Name = ''work'', PEMPrivateKey = ''RAW:k''\<rparr>)]) =
     (Callback (Inr [\<lparr>ID = ''1'', Name = ''work'', PEMPrivateKey = ''RAW:k''\<rparr>]),
      (test_world [(''key.1'', MapValue \<lparr>ID = ''1'', Name = ''work'', PEMPrivateKey = ''RAW:k''\<rparr>)])
        \<lparr>calls := [Storage_Get]\<rparr>) \<and>
   Load (toy_packages 0) test_manager ''2'' ''pw''
      (test_world [(''key.1'', MapValue \<lparr>ID = ''1'', Name = ''work'', PEMPrivateKey = ''RAW:k''\<rparr>)]) =
     (Callback (Some ''failed to find key with ID 2''),
      (test_world [(''key.1'', MapValue \<lparr>ID = ''1'', Name = ''work'', PEMPrivateKey = ''RAW:k''\<rparr>)])
        \<lparr>calls := [Storage_Get]\<rparr>)"
proof -
  let ?k = "\<lparr>ID = ''1'', Name = ''work'', PEMPrivateKey = ''RAW:k''\<rparr>"
  let ?w = "test_world [(''key.1'', MapValue ?k)]"
  have h1: "readKeys test_manager ?w = (Callback (Inr [?k]), ?w\<lparr>calls := [Storage_Get]\<rparr>)"
    by (simp add: test_defs)
  have h2: "\<forall>k\<in>set [?k]. storedKey.ID k \<noteq> ''2''" by simp
  show ?thesis
    using C6_load_unknown_id [OF h1 h2, of "toy_packages 0" "''pw''"] h1 by simp
qed

theorem C1_load_found_witness:
  "Load (toy_packages 0) test_manager ''1'' ''pw''
      (test_world [(''key.1'', MapValue \<lparr>ID = ''1'', Name = ''work'', PEMPrivateKey = ''ENC:pw:k''\<rparr>)]) =
     (Callback None,
      (test_world [(''key.1'', MapValue \<lparr>ID = ''1'', Name = ''work'', PEMPrivateKey = ''ENC:pw:k''\<rparr>)])
        \<lparr>agent_state := [\<lparr>Format = ''ssh-rsa'', Blob = bytes_of ''k'', Comment = ''chrome-ssh-agent:1''\<rparr>],
          calls := [Storage_Get,
                    Agent_Add \<lparr>PrivateKey = (''ssh-rsa'', bytes_of ''k''), Comment = ''chrome-ssh-agent:1''\<rparr>]\<rparr>) \<and>
   Load (toy_packages 0) test_manager ''2'' ''''
      (test_world [(''key.2'', MapValue \<lparr>ID = ''2'', Name = ''home'', PEMPrivateKey = ''RAW:q''\<rparr>)]) =
     (Callback None,
      (test_world [(''key.2'', MapValue \<lparr>ID = ''2'', Name = ''home'', PEMPrivateKey = ''RAW:q''\<rparr>)])
        \<lparr>agent_state := [\<lparr>Format = ''ssh-rsa'', Blob = bytes_of ''q'', Comment = ''chrome-ssh-agent:2''\<rparr>],
          calls := [Storage_Get,
                    Agent_Add \<lparr>PrivateKey = (''ssh-rsa'', bytes_of ''q''), Comment = ''chrome-ssh-agent:2''\<rparr>]\<rparr>)"
proof -
  let ?k = "\<lparr>ID = ''1'', Name = ''work'', PEMPrivateKey = ''ENC:pw:k''\<rparr>"
  let ?w = "test_world [(''key.1'', MapValue ?k)]"
  let ?priv = "(''ssh-rsa'', bytes_of ''k'')"
  have h1: "readKey test_manager ''1'' ?w = (Callback (Inr (Some ?k)), ?w\<lparr>calls := [Storage_Get]\<rparr>)"
    by (simp add: test_defs)
  have h2: "storedKey_Encrypted (toy_packages 0) ?k"
    by (simp add: test_defs)
  have h3: "ssh_ParseRawPrivateKeyWithPassphrase (toy_packages 0) (bytes_of (PEMPrivateKey ?k))
      (bytes_of ''pw'') = Inr ?priv"
    by (simp add: test_defs) (simp add: bytes_of_def)
  have h4: "agent_Add (agent test_manager) \<lparr>PrivateKey = ?priv, Comment = ''chrome-ssh-agent:'' @ ''1''\<rparr>
        (agent_state (?w\<lparr>calls := [Storage_Get]\<rparr>)) =
      (None, [\<lparr>Format = ''ssh-rsa'', Blob = bytes_of ''k'', Comment = ''chrome-ssh-agent:1''\<rparr>])"
    by (simp add: test_defs)
  have g1: "Load (toy_packages 0) test_manager ''1'' ''pw'' ?w =
     (Callback None,
      ?w\<lparr>agent_state := [\<lparr>Format = ''ssh-rsa'', Blob = bytes_of ''k'', Comment = ''chrome-ssh-agent:1''\<rparr>],
          calls := [Storage_Get,
                    Agent_Add \<lparr>PrivateKey = ?priv, Comment = ''chrome-ssh-agent:1''\<rparr>]\<rparr>)"
    using C1_load_found [OF h1 h4, of "toy_packages 0" "''pw''"] h2 h3
    by (simp add: test_world_def encodeComment_def commentPrefix_def)
  let ?k2 = "\<lparr>ID = ''2'', Name = ''home'', PEMPrivateKey = ''RAW:q''\<rparr>"
  let ?w2 = "test_world [(''key.2'', MapValue ?k2)]"
  let ?priv2 = "(''ssh-rsa'', bytes_of ''q'')"
  have i1: "readKey test_manager ''2'' ?w2 = (Callback (Inr (Some ?k2)), ?w2\<lparr>calls := [Storage_Get]\<rparr>)"
    by (simp add: test_defs)
  have i2: "\<not> storedKey_Encrypted (toy_packages 0) ?k2"
    by (simp add: test_defs)
  have i3: "ssh_ParseRawPrivateKey (toy_packages 0) (bytes_of (PEMPrivateKey ?k2)) = Inr ?priv2"
    by (simp add: test_defs) (simp add: bytes_of_def)
  have i4: "agent_Add (agent test_manager) \<lparr>PrivateKey = ?priv2, Comment = ''chrome-ssh-agent:'' @ ''2''\<rparr>
        (agent_state (?w2\<lparr>calls := [Storage_Get]\<rparr>)) =
      (None, [\<lparr>Format = ''ssh-rsa'', Blob = bytes_of ''q'', Comment = ''chrome-ssh-agent:2''\<rparr>])"
    by (simp add: test_defs)
  have g2: "Load (toy_packages 0) test_manager ''2'' '''' ?w2 =
     (Callback None,
      ?w2\<lparr>agent_state := [\<lparr>Format = ''ssh-rsa'', Blob = bytes_of ''q'', Comment = ''chrome-ssh-agent:2''\<rparr>],
          calls := [Storage_Get,
                    Agent_Add \<lparr>PrivateKey = ?priv2, Comment = ''chrome-ssh-agent:2''\<rparr>]\<rparr>)"
    using C1_load_found [OF i1 i4, of "toy_packages 0" "''''"] i2 i3
    by (simp add: test_world_def encodeComment_def commentPrefix_def)
  show ?thesis by (rule conjI [OF g1 g2])
qed


subsection \<open>Add\<close>

lemma digit_char: 
  assumes "(d::nat) < 10"
  shows "digits ! d \<in> set digits \<and> (of_char (digits ! d) :: nat) = 48 + d"
proof -
  have "d = 0 \<or> d = 1 \<or> d = 2 \<or> d = 3 \<or> d = 4 \<or> d = 5 \<or> d = 6 \<or> d = 7 \<or> d = 8 \<or> d = 9"
    using assms by arith
  then show ?thesis by (elim disjE) (simp_all add: digits_def)
qed

lemma decimal_digits: "set (decimal n) \<subseteq> set digits"
proof (induction n rule: decimal.induct)
  case (1 n)
  show ?case
  proof (cases "n < 10")
    case True
    then show ?thesis using digit_char [of n] by (subst decimal.simps) simp
  next
    case False
    have "n mod 10 < 10" by simp
    then have "digits ! (n mod 10) \<in> set digits" using digit_char by blast
    then show ?thesis using False 1 by (subst decimal.simps) simp
  qed
qed

lemma decimal_not_Nil: "decimal n \<noteq> []"
  by (subst decimal.simps) simp

lemma decimal_value_decimal: "decimal_value (decimal n) = n"
proof (induction n rule: decimal.induct)
  case (1 n)
  show ?case
  proof (cases "n < 10")
    case True
    then show ?thesis using digit_char [of n]
      by (subst decimal.simps) (simp add: decimal_value_def)
  next
    case False
    have "n mod 10 < 10" by simp
    then have "(of_char (digits ! (n mod 10)) :: nat) = 48 + n mod 10" using digit_char by blast
    moreover have "decimal_value (decimal (n div 10)) = n div 10" using False 1 by simp
    ultimately show ?thesis using False
      by (subst decimal.simps) (simp add: decimal_value_def)
  qed
qed

text \<open>
  Claim C7. An \<open>Add\<close> with a non-empty name draws the id with \<open>rand.Int\<close> below
  \<open>math.MaxInt64\<close>; for a draw \<open>n\<close> with \<open>0 \<le> n < math.MaxInt64\<close> the id is the decimal
  string of \<open>n\<close>, and the one call made is a single \<open>Set\<close> of the one entry that maps
  \<open>key.\<close> followed by the id to the record of the id, the name and the PEM text; the
  result of that call is the result of \<open>Add\<close>. When the draw fails nothing is called. That
  the draw is uniform is a property of \<open>rand.Int\<close>, which is a parameter here.
\<close>

theorem C7_add_persists_one_record:
  assumes "name \<noteq> []"
  shows
    "(rand_Int P math_MaxInt64 = Inl e \<longrightarrow>
        Add P m name pemPrivateKey w = (Callback (Some (''failed to generate new ID: '' @ e)), w)) \<and>
     (rand_Int P math_MaxInt64 = Inr n \<and> 0 \<le> n \<and> n < math_MaxInt64 \<and>
      storage_Set (storage m)
        [(''key.'' @ big_String n,
          MapValue \<lparr>ID = big_String n, Name = name, PEMPrivateKey = pemPrivateKey\<rparr>)]
        (storage_state w) = (r, s) \<longrightarrow>
        Add P m name pemPrivateKey w =
          (Callback r,
           w\<lparr>storage_state := s,
             calls := calls w @
               [Storage_Set [(''key.'' @ big_String n,
                  MapValue \<lparr>ID = big_String n, Name = name, PEMPrivateKey = pemPrivateKey\<rparr>)]]\<rparr>) \<and>
        set (big_String n) \<subseteq> set ''0123456789'' \<and> big_String n \<noteq> InvalidID \<and>
        int (decimal_value (big_String n)) = n \<and> n \<le> 2 ^ 63 - 2)"
proof (intro conjI impI)
  assume "rand_Int P math_MaxInt64 = Inl e"
  then show "Add P m name pemPrivateKey w =
      (Callback (Some (''failed to generate new ID: '' @ e)), w)"
    using assms by (simp add: Add_def writeKey_def)
next
  assume a: "rand_Int P math_MaxInt64 = Inr n \<and> 0 \<le> n \<and> n < math_MaxInt64 \<and>
      storage_Set (storage m)
        [(''key.'' @ big_String n,
          MapValue \<lparr>ID = big_String n, Name = name, PEMPrivateKey = pemPrivateKey\<rparr>)]
        (storage_state w) = (r, s)"
  then show "Add P m name pemPrivateKey w =
          (Callback r,
           w\<lparr>storage_state := s,
             calls := calls w @
               [Storage_Set [(''key.'' @ big_String n,
                  MapValue \<lparr>ID = big_String n, Name = name, PEMPrivateKey = pemPrivateKey\<rparr>)]]\<rparr>)"
    using assms by (simp add: Add_def writeKey_def call_Set_def keyPrefix_def Let_def)
  from a have n: "big_String n = decimal (nat n)" by (simp add: big_String_def)
  show "set (big_String n) \<subseteq> set ''0123456789''"
    using decimal_digits [of "nat n"] by (simp only: n digits_def)
  show "big_String n \<noteq> InvalidID"
    by (simp add: n InvalidID_def decimal_not_Nil)
  show "int (decimal_value (big_String n)) = n"
    using a by (simp add: n decimal_value_decimal)
  show "n \<le> 2 ^ 63 - 2"
    using a by (simp add: math_MaxInt64_def)
qed

theorem C7_add_persists_one_record_witness:
  "rand_Int (toy_packages 42) math_MaxInt64 = Inr 42 \<and>
   Add (toy_packages 42) test_manager ''work'' ''RAW:k'' (test_world []) =
     (Callback None,
      \<lparr>storage_state =
         \<lparr>entries = [(''key.42'', MapValue \<lparr>ID = ''42'', Name = ''work'', PEMPrivateKey = ''RAW:k''\<rparr>)],
          faults = []\<rparr>,
       agent_state = [],
       calls = [Storage_Set
                  [(''key.42'', MapValue \<lparr>ID = ''42'', Name = ''work'', PEMPrivateKey = ''RAW:k''\<rparr>)]],
       log = []\<rparr>) \<and>
   rand_Int (toy_packages (- 1)) math_MaxInt64 = Inl ''unexpected EOF'' \<and>
   Add (toy_packages (- 1)) test_manager ''work'' ''RAW:k'' (test_world []) =
     (Callback (Some ''failed to generate new ID: unexpected EOF''), test_world [])"
proof -
  have nm: "''work'' \<noteq> []" by simp
  have b: "big_String 42 = ''42''"
    by (simp add: big_String_def decimal.simps digits_def)
  have r1: "rand_Int (toy_packages 42) math_MaxInt64 = Inr 42"
    by (simp add: toy_packages_def math_MaxInt64_def)
  have r2: "rand_Int (toy_packages (- 1)) math_MaxInt64 = Inl ''unexpected EOF''"
    by (simp add: toy_packages_def)
  have st: "storage_Set (storage test_manager)
      [(''key.'' @ big_String 42,
        MapValue \<lparr>ID = big_String 42, Name = ''work'', PEMPrivateKey = ''RAW:k''\<rparr>)]
      (storage_state (test_world [])) =
    (None, \<lparr>entries = [(''key.42'', MapValue \<lparr>ID = ''42'', Name = ''work'', PEMPrivateKey = ''RAW:k''\<rparr>)],
            faults = []\<rparr>)"
    by (simp add: b test_manager_def test_world_def memStore_def next_fault_def put_def)
  have g1: "Add (toy_packages 42) test_manager ''work'' ''RAW:k'' (test_world []) =
     (Callback None,
      \<lparr>storage_state =
         \<lparr>entries = [(''key.42'', MapValue \<lparr>ID = ''42'', Name = ''work'', PEMPrivateKey = ''RAW:k''\<rparr>)],
          faults = []\<rparr>,
       agent_state = [],
       calls = [Storage_Set
                  [(''key.42'', MapValue \<lparr>ID = ''42'', Name = ''work'', PEMPrivateKey = ''RAW:k''\<rparr>)]],
       log = []\<rparr>)"
    using C7_add_persists_one_record [OF nm, where P = "toy_packages 42" and m = test_manager
        and w = "test_world []" and n = 42 and pemPrivateKey = "''RAW:k''" and r = None
        and s = "\<lparr>entries = [(''key.42'', MapValue \<lparr>ID = ''42'', Name = ''work'', PEMPrivateKey = ''RAW:k''\<rparr>)],
            faults = []\<rparr>"] r1 st
    by (simp add: b math_MaxInt64_def test_world_def)
  have g2: "Add (toy_packages (- 1)) test_manager ''work'' ''RAW:k'' (test_world []) =
     (Callback (Some ''failed to generate new ID: unexpected EOF''), test_world [])"
    using C7_add_persists_one_record [OF nm, where P = "toy_packages (- 1)" and m = test_manager
        and w = "test_world []" and e = "''unexpected EOF''" and pemPrivateKey = "''RAW:k''"] r2
    by simp
  show ?thesis using r1 g1 r2 g2 by blast
qed

subsection \<open>Remove, then Configured\<close>

lemma newStoredKey_same: "newStoredKey m = m"
  by (simp add: newStoredKey_def)

lemma readKeys_loop_set:
  "readKeys_loop data acc = Some keys \<Longrightarrow>
     set keys = set acc \<union> {sk. \<exists>k. (k, MapValue sk) \<in> set data \<and> HasPrefix k keyPrefix}"
proof (induction data acc rule: readKeys_loop.induct)
  case (1 keys')
  then show ?case by simp
next
  case (2 k v data acc)
  show ?case
  proof (cases "HasPrefix k keyPrefix")
    case False
    then show ?thesis using 2 by auto
  next
    case True
    then obtain m where v: "v = MapValue m" using 2(3) by (cases v) auto
    have "set keys = set (acc @ [newStoredKey m]) \<union>
        {sk. \<exists>k. (k, MapValue sk) \<in> set data \<and> HasPrefix k keyPrefix}"
      using 2(2) [OF _ v] 2(3) True v by simp
    then show ?thesis using True v by (auto simp: newStoredKey_same)
  qed
qed

lemma memStore_Get:
  "storage_Get memStore s = (Inr d, s') \<Longrightarrow> d = entries s \<and> entries s' = entries s"
  by (auto simp: memStore_def next_fault_def split: list.splits option.splits prod.splits)

lemma memStore_Delete:
  "storage_Delete memStore ks s = (None, s') \<Longrightarrow>
     entries s' = filter (\<lambda>e. fst e \<notin> set ks) (entries s)"
  by (auto simp: memStore_def next_fault_def split: list.splits option.splits prod.splits)

lemma readKeys_memStore:
  assumes "storage m = memStore" and "readKeys m w = (Callback (Inr keys), w')"
  shows "readKeys_loop (entries (storage_state w)) [] = Some keys \<and>
         entries (storage_state w') = entries (storage_state w)"
proof -
  obtain r s where g: "storage_Get memStore (storage_state w) = (r, s)"
    by (cases "storage_Get memStore (storage_state w)")
  with assms obtain d where d: "r = Inr d" and l: "readKeys_loop d [] = Some keys"
    and w': "w' = w\<lparr>storage_state := s, calls := calls w @ [Storage_Get]\<rparr>"
    by (auto simp: readKeys_def call_Get_def split: sum.splits option.splits)
  from g d memStore_Get have "d = entries (storage_state w) \<and> entries s = entries (storage_state w)"
    by blast
  then show ?thesis using l w' by simp
qed

lemma removeKey_memStore:
  assumes "storage m = memStore" and "removeKey m i w = (Callback None, w1)"
  shows "\<exists>keys. readKeys_loop (entries (storage_state w)) [] = Some keys \<and>
           entries (storage_state w1) =
             filter (\<lambda>e. fst e \<notin> (\<lambda>k. keyPrefix @ storedKey.ID k) ` {k \<in> set keys. storedKey.ID k = i})
               (entries (storage_state w))"
proof -
  obtain r w' where rk: "readKeys m w = (r, w')" by (cases "readKeys m w")
  with assms(2) obtain keys where r: "r = Callback (Inr keys)"
    by (auto simp: removeKey_def split: outcome.splits sum.splits)
  let ?ks = "map (\<lambda>k. keyPrefix @ storedKey.ID k) (filter (\<lambda>k. storedKey.ID k = i) keys)"
  obtain r2 s2 where d: "storage_Delete memStore ?ks (storage_state w') = (r2, s2)"
    by (cases "storage_Delete memStore ?ks (storage_state w')")
  with assms rk r have r2: "r2 = None"
    and w1: "w1 = w'\<lparr>storage_state := s2, calls := calls w' @ [Storage_Delete ?ks]\<rparr>"
    by (auto simp: removeKey_def call_Delete_def Let_def split: option.splits)
  from d r2 have "entries s2 = filter (\<lambda>e. fst e \<notin> set ?ks) (entries (storage_state w'))"
    using memStore_Delete by blast
  moreover have "readKeys_loop (entries (storage_state w)) [] = Some keys"
      "entries (storage_state w') = entries (storage_state w)"
    using readKeys_memStore [OF assms(1)] rk r by auto
  ultimately show ?thesis using w1 by auto
qed

lemma key_layout_entry:
  "key_layout es \<Longrightarrow> (k, MapValue sk) \<in> set es \<Longrightarrow> HasPrefix k keyPrefix \<Longrightarrow>
     k = keyPrefix @ storedKey.ID sk"
  by (auto simp: key_layout_def list_all_iff)

lemma removeKey_removes:
  assumes m: "storage m = memStore" and lay: "key_layout (entries (storage_state w))"
    and rm: "removeKey m i w = (Callback None, w1)"
    and e: "(k, MapValue sk) \<in> set (entries (storage_state w1))" and p: "HasPrefix k keyPrefix"
  shows "storedKey.ID sk \<noteq> i"
proof
  assume i: "storedKey.ID sk = i"
  from removeKey_memStore [OF m rm] obtain keys where
    l: "readKeys_loop (entries (storage_state w)) [] = Some keys" and
    f: "entries (storage_state w1) =
          filter (\<lambda>e. fst e \<notin> (\<lambda>k. keyPrefix @ storedKey.ID k) ` {k \<in> set keys. storedKey.ID k = i})
            (entries (storage_state w))"
    by blast
  from e f have e0: "(k, MapValue sk) \<in> set (entries (storage_state w))"
    and nk: "k \<notin> (\<lambda>k. keyPrefix @ storedKey.ID k) ` {k \<in> set keys. storedKey.ID k = i}"
    by auto
  from readKeys_loop_set [OF l] e0 p have "sk \<in> set keys" by auto
  moreover have "k = keyPrefix @ storedKey.ID sk" using key_layout_entry [OF lay e0 p] .
  ultimately show False using nk i by auto
qed

text \<open>
  Claim C5, as amended. On the key/value store, from a state in which every key record
  lies under \<open>key.\<close> followed by its own id: when \<open>Remove\<close> of an id succeeds, a
  \<open>Configured\<close> that follows and succeeds lists no key with that id, and no record with
  that id is left among the key entries, whether or not the id was there before; and when
  the read succeeds, no record has the id and the store does not fail, \<open>Remove\<close> calls
  \<open>Delete\<close> with no key, changes no entry and succeeds.
\<close>

theorem C5_remove_then_configured:
  assumes "storage m = memStore" and "key_layout (entries (storage_state w))"
  shows
    "(Remove m i w = (Callback None, w1) \<and> Configured P m w1 = (Callback (Inr cfg), w2) \<longrightarrow>
        i \<notin> set (map ConfiguredKey.ID cfg)) \<and>
     (Remove m i w = (Callback None, w1) \<longrightarrow>
        (\<forall>k sk. (k, MapValue sk) \<in> set (entries (storage_state w1)) \<and> HasPrefix k keyPrefix \<longrightarrow>
           storedKey.ID sk \<noteq> i)) \<and>
     (readKeys m w = (Callback (Inr keys), w') \<and> (\<forall>k\<in>set keys. storedKey.ID k \<noteq> i) \<and>
      faults (storage_state w') = [] \<longrightarrow>
        Remove m i w = (Callback None, w'\<lparr>calls := calls w' @ [Storage_Delete []]\<rparr>) \<and>
        entries (storage_state w') = entries (storage_state w))"
proof (intro conjI impI allI)
  assume a: "Remove m i w = (Callback None, w1) \<and> Configured P m w1 = (Callback (Inr cfg), w2)"
  then have rm: "removeKey m i w = (Callback None, w1)" by (simp add: Remove_def)
  from a obtain keys1 where rk: "readKeys m w1 = (Callback (Inr keys1), w2)"
    and cfg: "cfg = map (\<lambda>k. \<lparr>ConfiguredKey.ID = storedKey.ID k, Name = storedKey.Name k,
                             Encrypted = storedKey_Encrypted P k\<rparr>) keys1"
    by (auto simp: Configured_def split: prod.splits outcome.splits sum.splits)
  have l1: "readKeys_loop (entries (storage_state w1)) [] = Some keys1"
    using readKeys_memStore [OF assms(1) rk] by simp
  show "i \<notin> set (map ConfiguredKey.ID cfg)"
  proof
    assume "i \<in> set (map ConfiguredKey.ID cfg)"
    then obtain sk where sk: "sk \<in> set keys1" and i: "storedKey.ID sk = i"
      using cfg by auto
    from readKeys_loop_set [OF l1] sk obtain k where
      "(k, MapValue sk) \<in> set (entries (storage_state w1))" "HasPrefix k keyPrefix"
      by auto
    then have "storedKey.ID sk \<noteq> i" using removeKey_removes [OF assms rm] by blast
    then show False using i by simp
  qed
next
  fix k sk
  assume "Remove m i w = (Callback None, w1)"
    and "(k, MapValue sk) \<in> set (entries (storage_state w1)) \<and> HasPrefix k keyPrefix"
  then show "storedKey.ID sk \<noteq> i"
    using removeKey_removes [OF assms, of i w1 k sk] by (simp add: Remove_def)
next
  assume a: "readKeys m w = (Callback (Inr keys), w') \<and> (\<forall>k\<in>set keys. storedKey.ID k \<noteq> i) \<and>
      faults (storage_state w') = []"
  then have f: "filter (\<lambda>k. storedKey.ID k = i) keys = []" by (auto simp: filter_empty_conv)
  have d: "storage_Delete memStore [] (storage_state w') = (None, storage_state w')"
    using a by (simp add: memStore_def next_fault_def)
  show "Remove m i w = (Callback None, w'\<lparr>calls := calls w' @ [Storage_Delete []]\<rparr>)"
    using a f d assms(1) by (simp add: Remove_def removeKey_def call_Delete_def)
  show "entries (storage_state w') = entries (storage_state w)"
    using a readKeys_memStore [OF assms(1)] by blast
qed

text \<open>
  Claim C5 as stated, for every state of the store, fails: \<open>removeKey\<close> deletes the
  storage key built from the id of a matching record, not the key the record was read
  from. With two records of id \<open>7\<close> under \<open>key.7\<close> and \<open>key.8\<close>, \<open>Remove\<close> succeeds,
  deletes \<open>key.7\<close> alone, and \<open>Configured\<close> still lists id \<open>7\<close>.
\<close>

theorem C5_every_state_counterexample:
  "Remove test_manager ''7''
     (test_world [(''key.7'', MapValue \<lparr>ID = ''7'', Name = ''a'', PEMPrivateKey = ''RAW:k''\<rparr>),
                  (''key.8'', MapValue \<lparr>ID = ''7'', Name = ''b'', PEMPrivateKey = ''RAW:k''\<rparr>)]) =
     (Callback None,
      \<lparr>storage_state =
         \<lparr>entries = [(''key.8'', MapValue \<lparr>ID = ''7'', Name = ''b'', PEMPrivateKey = ''RAW:k''\<rparr>)],
          faults = []\<rparr>,
       agent_state = [],
       calls = [Storage_Get, Storage_Delete [''key.7'', ''key.7'']],
       log = []\<rparr>) \<and>
   fst (Configured (toy_packages 0) test_manager
     \<lparr>storage_state =
         \<lparr>entries = [(''key.8'', MapValue \<lparr>ID = ''7'', Name = ''b'', PEMPrivateKey = ''RAW:k''\<rparr>)],
          faults = []\<rparr>,
       agent_state = [],
       calls = [Storage_Get, Storage_Delete [''key.7'', ''key.7'']],
       log = []\<rparr>) =
     Callback (Inr [\<lparr>ConfiguredKey.ID = ''7'', Name = ''b'', Encrypted = False\<rparr>]) \<and>
   ''7'' \<in> set (map ConfiguredKey.ID [\<lparr>ConfiguredKey.ID = ''7'', Name = ''b'', Encrypted = False\<rparr>])"
  by (simp add: Remove_def removeKey_def Configured_def test_defs)

theorem C5_remove_then_configured_witness:
  "key_layout [(''key.7'', MapValue \<lparr>ID = ''7'', Name = ''a'', PEMPrivateKey = ''RAW:k''\<rparr>),
               (''key.9'', MapValue \<lparr>ID = ''9'', Name = ''b'', PEMPrivateKey = ''ENC:pw:k''\<rparr>),
               (''theme'', OtherValue)] \<and>
   Remove test_manager ''7''
     (test_world [(''key.7'', MapValue \<lparr>ID = ''7'', Name = ''a'', PEMPrivateKey = ''RAW:k''\<rparr>),
                  (''key.9'', MapValue \<lparr>ID = ''9'', Name = ''b'', PEMPrivateKey = ''ENC:pw:k''\<rparr>),
                  (''theme'', OtherValue)]) =
     (Callback None,
      \<lparr>storage_state =
         \<lparr>entries = [(''key.9'', MapValue \<lparr>ID = ''9'', Name = ''b'', PEMPrivateKey = ''ENC:pw:k''\<rparr>),
                     (''theme'', OtherValue)],
          faults = []\<rparr>,
       agent_state = [], calls = [Storage_Get, Storage_Delete [''key.7'']], log = []\<rparr>) \<and>
   Configured (toy_packages 0) test_manager
      \<lparr>storage_state =
         \<lparr>entries = [(''key.9'', MapValue \<lparr>ID = ''9'', Name = ''b'', PEMPrivateKey = ''ENC:pw:k''\<rparr>),
                     (''theme'', OtherValue)],
          faults = []\<rparr>,
       agent_state = [], calls = [Storage_Get, Storage_Delete [''key.7'']], log = []\<rparr> =
     (Callback (Inr [\<lparr>ConfiguredKey.ID = ''9'', Name = ''b'', Encrypted = True\<rparr>]),
      \<lparr>storage_state =
         \<lparr>entries = [(''key.9'', MapValue \<lparr>ID = ''9'', Name = ''b'', PEMPrivateKey = ''ENC:pw:k''\<rparr>),
                     (''theme'', OtherValue)],
          faults = []\<rparr>,
       agent_state = [], calls = [Storage_Get, Storage_Delete [''key.7''], Storage_Get], log = []\<rparr>) \<and>
   ''7'' \<notin> set (map ConfiguredKey.ID [\<lparr>ConfiguredKey.ID = ''9'', Name = ''b'', Encrypted = True\<rparr>]) \<and>
   Remove test_manager ''5''
     (test_world [(''key.7'', MapValue \<lparr>ID = ''7'', Name = ''a'', PEMPrivateKey = ''RAW:k''\<rparr>),
                  (''key.9'', MapValue \<lparr>ID = ''9'', Name = ''b'', PEMPrivateKey = ''ENC:pw:k''\<rparr>),
                  (''theme'', OtherValue)]) =
     (Callback None,
      (test_world [(''key.7'', MapValue \<lparr>ID = ''7'', Name = ''a'', PEMPrivateKey = ''RAW:k''\<rparr>),
                   (''key.9'', MapValue \<lparr>ID = ''9'', Name = ''b'', PEMPrivateKey = ''ENC:pw:k''\<rparr>),
                   (''theme'', OtherValue)])
        \<lparr>calls := [Storage_Get, Storage_Delete []]\<rparr>)"
proof -
  let ?k7 = "\<lparr>ID = ''7'', Name = ''a'', PEMPrivateKey = ''RAW:k''\<rparr>"
  let ?k9 = "\<lparr>ID = ''9'', Name = ''b'', PEMPrivateKey = ''ENC:pw:k''\<rparr>"
  let ?es = "[(''key.7'', MapValue ?k7), (''key.9'', MapValue ?k9), (''theme'', OtherValue)]"
  let ?w1 = "\<lparr>storage_state = \<lparr>entries = [(''key.9'', MapValue ?k9), (''theme'', OtherValue)], faults = []\<rparr>,
       agent_state = [] :: agent_Key list,
       calls = [Storage_Get, Storage_Delete [''key.7'']] :: (string \<times> byte list) call list,
       log = []\<rparr>"
  let ?cfg = "[\<lparr>ConfiguredKey.ID = ''9'', Name = ''b'', Encrypted = True\<rparr>]"
  have m: "storage test_manager = memStore" by (simp add: test_manager_def)
  have lay: "key_layout ?es"
    by (simp add: key_layout_def HasPrefix_def keyPrefix_def)
  have lay': "key_layout (entries (storage_state (test_world ?es)))"
    using lay by (simp add: test_world_def)
  have rm: "Remove test_manager ''7'' (test_world ?es) = (Callback None, ?w1)"
    by (simp add: Remove_def removeKey_def test_defs)
  have cf: "Configured (toy_packages 0) test_manager ?w1 =
      (Callback (Inr ?cfg), ?w1\<lparr>calls := [Storage_Get, Storage_Delete [''key.7''], Storage_Get]\<rparr>)"
    by (simp add: Configured_def test_defs)
  have rk: "readKeys test_manager (test_world ?es) =
      (Callback (Inr [?k7, ?k9]), (test_world ?es)\<lparr>calls := [Storage_Get]\<rparr>)"
    by (simp add: test_defs)
  have no: "\<forall>k\<in>set [?k7, ?k9]. storedKey.ID k \<noteq> ''5''" by simp
  have nf: "faults (storage_state ((test_world ?es)\<lparr>calls := [Storage_Get]\<rparr>)) = []"
    by (simp add: test_world_def)
  note t = C5_remove_then_configured [OF m lay', where i = "''7''" and ?w1.0 = ?w1
      and P = "toy_packages 0" and cfg = ?cfg
      and ?w2.0 = "?w1\<lparr>calls := [Storage_Get, Storage_Delete [''key.7''], Storage_Get]\<rparr>"]
  note u = C5_remove_then_configured [OF m lay', where i = "''5''" and keys = "[?k7, ?k9]"
      and w' = "(test_world ?es)\<lparr>calls := [Storage_Get]\<rparr>"]
  from t rm cf have g1: "''7'' \<notin> set (map ConfiguredKey.ID ?cfg)" by blast
  from u rk no nf have g2: "Remove test_manager ''5'' (test_world ?es) =
      (Callback None, (test_world ?es)\<lparr>calls := [Storage_Get]\<rparr>
         \<lparr>calls := calls ((test_world ?es)\<lparr>calls := [Storage_Get]\<rparr>) @ [Storage_Delete []]\<rparr>)"
    by blast
  then have g2': "Remove test_manager ''5'' (test_world ?es) =
      (Callback None, (test_world ?es)\<lparr>calls := [Storage_Get, Storage_Delete []]\<rparr>)"
    by simp
  from cf have cf': "Configured (toy_packages 0) test_manager ?w1 =
      (Callback (Inr ?cfg),
       \<lparr>storage_state = \<lparr>entries = [(''key.9'', MapValue ?k9), (''theme'', OtherValue)], faults = []\<rparr>,
       agent_state = [], calls = [Storage_Get, Storage_Delete [''key.7''], Storage_Get], log = []\<rparr>)"
    by simp
  show ?thesis using lay rm cf' g1 g2' by blast
qed

end
